theory Spec2Isabelle
  imports Complex_Main "HOL-Library.Sublist"
begin

section \<open>ScoreManager (ScoreManager.py)\<close>

text \<open>
  The class has two integer attributes. \<open>ghost_eaten_combo\<close> is only ever set to 1 or
  incremented, and it is used as the exponent of \<open>2 ** ghost_eaten_combo\<close>, so it is a
  natural number here; \<open>score\<close> is a Python int.
\<close>

record ScoreManager =
  score :: int
  ghost_eaten_combo :: nat

definition ScoreManager_init :: ScoreManager where
  "ScoreManager_init = \<lparr>score = 0, ghost_eaten_combo = 1\<rparr>"

definition reset :: "ScoreManager \<Rightarrow> ScoreManager" where
  "reset s = s\<lparr>score := 0, ghost_eaten_combo := 1\<rparr>"

definition add_pellet_score :: "ScoreManager \<Rightarrow> ScoreManager" where
  "add_pellet_score s = s\<lparr>score := score s + 10\<rparr>"

definition add_power_pellet_score :: "ScoreManager \<Rightarrow> ScoreManager" where
  "add_power_pellet_score s = s\<lparr>score := score s + 50, ghost_eaten_combo := 1\<rparr>"

definition add_ghost_score :: "ScoreManager \<Rightarrow> ScoreManager" where
  "add_ghost_score s =
     s\<lparr>score := score s + (2 ^ ghost_eaten_combo s) * 100,
       ghost_eaten_combo := ghost_eaten_combo s + 1\<rparr>"

text \<open>The four methods as events, and a run of events on a freshly constructed object.\<close>

datatype score_op = Reset | AddPellet | AddPowerPellet | AddGhost

fun apply_score_op :: "score_op \<Rightarrow> ScoreManager \<Rightarrow> ScoreManager" where
  "apply_score_op Reset s = reset s"
| "apply_score_op AddPellet s = add_pellet_score s"
| "apply_score_op AddPowerPellet s = add_power_pellet_score s"
| "apply_score_op AddGhost s = add_ghost_score s"

fun run_score_ops :: "score_op list \<Rightarrow> ScoreManager \<Rightarrow> ScoreManager" where
  "run_score_ops [] s = s"
| "run_score_ops (e # es) s = run_score_ops es (apply_score_op e s)"

section \<open>Pathfinder (PathFinder.py)\<close>

subsection \<open>Direction\<close>

datatype Direction = UP | DOWN | LEFT | RIGHT

text \<open>The enum member's \<open>value\<close>: its displacement \<open>(dx, dy)\<close>.\<close>

fun direction_value :: "Direction \<Rightarrow> int \<times> int" where
  "direction_value UP = (0, -1)"
| "direction_value DOWN = (0, 1)"
| "direction_value LEFT = (-1, 0)"
| "direction_value RIGHT = (1, 0)"

fun opposite :: "Direction \<Rightarrow> Direction" where
  "opposite UP = DOWN"
| "opposite DOWN = UP"
| "opposite LEFT = RIGHT"
| "opposite RIGHT = LEFT"

definition DIRECTION_PREFERENCE :: "Direction list" where
  "DIRECTION_PREFERENCE = [UP, LEFT, DOWN, RIGHT]"

subsection \<open>Python exceptions, list access and floats\<close>

datatype error = IndexError | OverflowError | ValueError

text \<open>
  \<open>xs[i]\<close>: an index from \<open>-len(xs)\<close> up to \<open>len(xs) - 1\<close> reads an element (a negative
  one counts from the end), any other index raises IndexError.
\<close>

definition getitem :: "'a list \<Rightarrow> int \<Rightarrow> error + 'a" where
  "getitem xs i =
     (if 0 \<le> i \<and> i < int (length xs) then Inr (xs ! nat i)
      else if - int (length xs) \<le> i \<and> i < 0 then Inr (xs ! nat (int (length xs) + i))
      else Inl IndexError)"

text \<open>\<open>xs.index(v)\<close>: the first position of \<open>v\<close>, ValueError when \<open>v\<close> is not in the list.\<close>

fun list_index :: "'a list \<Rightarrow> 'a \<Rightarrow> error + nat" where
  "list_index [] v = Inl ValueError"
| "list_index (x # xs) v =
     (if x = v then Inr 0
      else case list_index xs v of Inl e \<Rightarrow> Inl e | Inr i \<Rightarrow> Inr (Suc i))"

text \<open>
  The floats of the selection loop: what \<open>math.dist\<close> returns on points with integer
  coordinates, and the initial \<open>float("inf")\<close>. Such a float is a finite number or
  positive infinity (never NaN), with the order and equality of floats.
\<close>

datatype pyfloat = Finite real | Infinity

instantiation pyfloat :: linorder
begin

fun less_eq_pyfloat :: "pyfloat \<Rightarrow> pyfloat \<Rightarrow> bool" where
  "less_eq_pyfloat (Finite a) (Finite b) = (a \<le> b)"
| "less_eq_pyfloat (Finite a) Infinity = True"
| "less_eq_pyfloat Infinity (Finite b) = False"
| "less_eq_pyfloat Infinity Infinity = True"

fun less_pyfloat :: "pyfloat \<Rightarrow> pyfloat \<Rightarrow> bool" where
  "less_pyfloat (Finite a) (Finite b) = (a < b)"
| "less_pyfloat (Finite a) Infinity = True"
| "less_pyfloat Infinity b = False"

instance
proof
  fix x y z :: pyfloat
  show "(x < y) = (x \<le> y \<and> \<not> y \<le> x)"
    by (cases x; cases y) auto
  show "x \<le> x"
    by (cases x) auto
  show "x \<le> y \<Longrightarrow> y \<le> z \<Longrightarrow> x \<le> z"
    by (cases x; cases y; cases z) auto
  show "x \<le> y \<Longrightarrow> y \<le> x \<Longrightarrow> x = y"
    by (cases x; cases y) auto
  show "x \<le> y \<or> y \<le> x"
    by (cases x; cases y) auto
qed

end

text \<open>
  Converting a Python int to a double raises OverflowError ("int too large to convert to
  float") from magnitude \<open>2^1024 - 2^970\<close> on, the first integer that rounds to
  \<open>2^1024\<close>.
\<close>

definition DBL_OVERFLOW :: int where
  "DBL_OVERFLOW = 2 ^ 1024 - 2 ^ 970"

definition int_overflows :: "int \<Rightarrow> bool" where
  "int_overflows n = (DBL_OVERFLOW \<le> \<bar>n\<bar>)"

text \<open>
  The float that \<open>math.dist((x1, y1), (x2, y2))\<close> returns once the four coordinates are
  converted is computed in double arithmetic, with its rounding. That computation is not
  described here: it is a parameter \<open>float_dist\<close> of the functions that measure
  distances, and every statement about them holds for every function \<open>float_dist\<close>.
\<close>

type_synonym float_dist = "int \<Rightarrow> int \<Rightarrow> int \<Rightarrow> int \<Rightarrow> pyfloat"

subsection \<open>Pathfinder\<close>

record Pathfinder =
  maze :: "int list list"
  height :: int
  width :: int

definition Pathfinder_init :: "int list list \<Rightarrow> Pathfinder" where
  "Pathfinder_init m =
     \<lparr>maze = m, height = int (length m),
      width = (case m of [] \<Rightarrow> 0 | row0 # _ \<Rightarrow> int (length row0))\<rparr>"

definition is_valid_tile :: "Pathfinder \<Rightarrow> int \<Rightarrow> int \<Rightarrow> error + bool" where
  "is_valid_tile pf x y =
     (if x < 0 \<or> x \<ge> width pf \<or> y < 0 \<or> y \<ge> height pf then Inr False
      else case getitem (maze pf) y of Inl e \<Rightarrow> Inl e | Inr row \<Rightarrow>
           (case getitem row x of Inl e \<Rightarrow> Inl e | Inr cell \<Rightarrow> Inr (cell = 0)))"

text \<open>
  The loop of \<open>get_available_exits\<close> over the directions still to visit, with the list
  \<open>available\<close> built so far.
\<close>

fun exits_loop ::
  "Pathfinder \<Rightarrow> int \<Rightarrow> int \<Rightarrow> Direction \<Rightarrow> Direction list \<Rightarrow> Direction list
     \<Rightarrow> error + Direction list" where
  "exits_loop pf x y current_direction [] available = Inr available"
| "exits_loop pf x y current_direction (direction # rest) available =
     (if direction = opposite current_direction
      then exits_loop pf x y current_direction rest available
      else case direction_value direction of (dx, dy) \<Rightarrow>
        (case is_valid_tile pf (x + dx) (y + dy) of
           Inl e \<Rightarrow> Inl e
         | Inr ok \<Rightarrow>
             if ok then exits_loop pf x y current_direction rest (available @ [direction])
             else exits_loop pf x y current_direction rest available))"

definition get_available_exits ::
  "Pathfinder \<Rightarrow> int \<Rightarrow> int \<Rightarrow> Direction \<Rightarrow> error + Direction list" where
  "get_available_exits pf x y current_direction =
     exits_loop pf x y current_direction DIRECTION_PREFERENCE []"

text \<open>
  \<open>math.dist((x1, y1), (x2, y2))\<close>: each coordinate is converted to a double, which
  raises OverflowError for an int too large; the result is then the float
  \<open>float_dist x1 y1 x2 y2\<close>.
\<close>

definition euclidean_distance ::
  "float_dist \<Rightarrow> int \<Rightarrow> int \<Rightarrow> int \<Rightarrow> int \<Rightarrow> error + pyfloat" where
  "euclidean_distance float_dist x1 y1 x2 y2 =
     (if int_overflows x1 \<or> int_overflows x2 \<or> int_overflows y1 \<or> int_overflows y2
      then Inl OverflowError
      else Inr (float_dist x1 y1 x2 y2))"

text \<open>
  The loop of \<open>choose_direction\<close> over the exits still to evaluate, with
  \<open>best_direction\<close> (None before the first update) and \<open>best_distance\<close>.
  \<open>DIRECTION_PREFERENCE.index(best_direction)\<close> raises ValueError when
  \<open>best_direction\<close> is still None.
\<close>

fun choose_loop ::
  "float_dist \<Rightarrow> int \<Rightarrow> int \<Rightarrow> int \<Rightarrow> int \<Rightarrow> Direction list \<Rightarrow> Direction option
     \<Rightarrow> pyfloat \<Rightarrow> error + Direction option" where
  "choose_loop float_dist lookahead_x lookahead_y target_x target_y [] best_direction
       best_distance =
     Inr best_direction"
| "choose_loop float_dist lookahead_x lookahead_y target_x target_y (direction # rest)
       best_direction best_distance =
     (case direction_value direction of (test_dx, test_dy) \<Rightarrow>
      (case euclidean_distance float_dist (lookahead_x + test_dx) (lookahead_y + test_dy)
              target_x target_y of
         Inl e \<Rightarrow> Inl e
       | Inr distance \<Rightarrow>
           if distance < best_distance
           then choose_loop float_dist lookahead_x lookahead_y target_x target_y rest
                  (Some direction) distance
           else if distance = best_distance
           then (case list_index (map Some DIRECTION_PREFERENCE) (Some direction) of
                   Inl e \<Rightarrow> Inl e
                 | Inr i \<Rightarrow>
                   (case list_index (map Some DIRECTION_PREFERENCE) best_direction of
                      Inl e \<Rightarrow> Inl e
                    | Inr j \<Rightarrow>
                        if i < j
                        then choose_loop float_dist lookahead_x lookahead_y target_x target_y
                               rest (Some direction) best_distance
                        else choose_loop float_dist lookahead_x lookahead_y target_x target_y
                               rest best_direction best_distance))
           else choose_loop float_dist lookahead_x lookahead_y target_x target_y rest
                  best_direction best_distance))"

text \<open>The result is a \<open>Direction option\<close>: the Python function returns \<open>best_direction\<close>,
  which starts as None.\<close>

definition choose_direction ::
  "float_dist \<Rightarrow> Pathfinder \<Rightarrow> int \<Rightarrow> int \<Rightarrow> Direction \<Rightarrow> int \<Rightarrow> int
     \<Rightarrow> error + Direction option" where
  "choose_direction float_dist pf ghost_x ghost_y current_direction target_x target_y =
     (case direction_value current_direction of (dx, dy) \<Rightarrow>
      (let lookahead_x = ghost_x + dx; lookahead_y = ghost_y + dy in
       case get_available_exits pf lookahead_x lookahead_y current_direction of
         Inl e \<Rightarrow> Inl e
       | Inr available_exits \<Rightarrow>
           if length available_exits = 1
           then (case getitem available_exits 0 of Inl e \<Rightarrow> Inl e | Inr d \<Rightarrow> Inr (Some d))
           else if length available_exits = 0
           then Inr (Some (opposite current_direction))
           else choose_loop float_dist lookahead_x lookahead_y target_x target_y
                  available_exits None Infinity))"

definition get_next_position :: "int \<Rightarrow> int \<Rightarrow> Direction \<Rightarrow> int \<times> int" where
  "get_next_position x y direction =
     (case direction_value direction of (dx, dy) \<Rightarrow> (x + dx, y + dy))"

subsection \<open>The maze of the test suite\<close>

text \<open>The fixture \<open>simple_maze\<close> of the test suite: 0 is walkable, 1 is a wall.\<close>

definition simple_maze :: "int list list" where
  "simple_maze =
     [[1, 1, 1, 1, 1],
      [1, 0, 0, 0, 1],
      [1, 0, 1, 0, 1],
      [1, 0, 0, 0, 1],
      [1, 1, 1, 1, 1]]"

subsection \<open>Notions the claims are stated with\<close>

text \<open>All rows as long as the width the constructor reads off the first row.\<close>

definition rectangular :: "int list list \<Rightarrow> bool" where
  "rectangular m = (\<forall>row \<in> set m. int (length row) = width (Pathfinder_init m))"

definition in_bounds :: "Pathfinder \<Rightarrow> int \<Rightarrow> int \<Rightarrow> bool" where
  "in_bounds pf x y = (0 \<le> x \<and> x < width pf \<and> 0 \<le> y \<and> y < height pf)"

text \<open>
  A valid tile in the words of the specification: within the grid bounds, and the cell
  is walkable (0).
\<close>

definition valid_tile_spec :: "int list list \<Rightarrow> int \<Rightarrow> int \<Rightarrow> bool" where
  "valid_tile_spec m x y = (in_bounds (Pathfinder_init m) x y \<and> m ! nat y ! nat x = 0)"

text \<open>
  The exits in the words of the specification: scan UP, LEFT, DOWN, RIGHT and keep the
  directions that are not the opposite of the heading and lead to a valid tile.
\<close>

definition exits_spec :: "int list list \<Rightarrow> int \<Rightarrow> int \<Rightarrow> Direction \<Rightarrow> Direction list" where
  "exits_spec m x y h =
     filter (\<lambda>d. d \<noteq> opposite h
                \<and> valid_tile_spec m (x + fst (direction_value d)) (y + snd (direction_value d)))
       [UP, LEFT, DOWN, RIGHT]"

text \<open>The position of a direction in \<open>DIRECTION_PREFERENCE\<close>.\<close>

definition preference_rank :: "Direction \<Rightarrow> nat" where
  "preference_rank d =
     (case list_index DIRECTION_PREFERENCE d of
        Inr i \<Rightarrow> i
      | Inl e \<Rightarrow> length DIRECTION_PREFERENCE)"


text \<open>
  The float computed as the distance from the test tile of direction \<open>d\<close> (the lookahead
  tile moved by \<open>d\<close>) to the target.
\<close>

definition test_tile_distance ::
  "float_dist \<Rightarrow> int \<Rightarrow> int \<Rightarrow> int \<Rightarrow> int \<Rightarrow> Direction \<Rightarrow> pyfloat" where
  "test_tile_distance float_dist lx ly tx ty d =
     float_dist (lx + fst (direction_value d)) (ly + snd (direction_value d)) tx ty"

text \<open>\<open>math.dist\<close> returns a finite float for the test tile of \<open>d\<close>: no coordinate
  overflows in the conversion, and the float is not \<open>inf\<close>.\<close>

definition distance_is_finite ::
  "float_dist \<Rightarrow> int \<Rightarrow> int \<Rightarrow> int \<Rightarrow> int \<Rightarrow> Direction \<Rightarrow> bool" where
  "distance_is_finite float_dist lx ly tx ty d =
     (case euclidean_distance float_dist
             (lx + fst (direction_value d)) (ly + snd (direction_value d)) tx ty of
        Inr (Finite r) \<Rightarrow> True
      | Inr Infinity \<Rightarrow> False
      | Inl e \<Rightarrow> False)"

text \<open>
  A sample of \<open>float_dist\<close>: the exact Euclidean distance. It fixes the parameter where a
  statement needs a concrete function; it does not describe the rounding of \<open>math.dist\<close>.
\<close>

definition exact_distance :: float_dist where
  "exact_distance x1 y1 x2 y2 = Finite (sqrt (real_of_int ((x1 - x2)\<^sup>2 + (y1 - y2)\<^sup>2)))"

section \<open>Properties of ScoreManager\<close>

lemma run_score_ops_append:
  "run_score_ops (es @ fs) s = run_score_ops fs (run_score_ops es s)"
  by (induction es arbitrary: s) simp_all

lemma apply_score_op_inv:
  "0 \<le> score s \<Longrightarrow> 1 \<le> ghost_eaten_combo s \<Longrightarrow>
   0 \<le> score (apply_score_op e s) \<and> 1 \<le> ghost_eaten_combo (apply_score_op e s)"
  by (cases e)
     (simp_all add: reset_def add_pellet_score_def add_power_pellet_score_def add_ghost_score_def)

lemma run_score_ops_inv:
  "0 \<le> score s \<Longrightarrow> 1 \<le> ghost_eaten_combo s \<Longrightarrow>
   0 \<le> score (run_score_ops es s) \<and> 1 \<le> ghost_eaten_combo (run_score_ops es s)"
proof (induction es arbitrary: s)
  case Nil
  then show ?case by simp
next
  case (Cons e es)
  from apply_score_op_inv [OF Cons.prems, of e]
  have "0 \<le> score (apply_score_op e s)" and "1 \<le> ghost_eaten_combo (apply_score_op e s)"
    by simp_all
  from Cons.IH [OF this] show ?case by simp
qed

lemma apply_score_op_mono:
  "e \<noteq> Reset \<Longrightarrow> score s \<le> score (apply_score_op e s)"
  by (cases e) (simp_all add: add_pellet_score_def add_power_pellet_score_def add_ghost_score_def)

text \<open>
  C7. \<open>add_ghost_score\<close> adds \<open>2 ^ combo * 100\<close> for the combo value it finds, then
  increments the combo; from a fresh object the four cumulative scores are 200, 600, 1400
  and 3000, and the combo ends at 5.
\<close>

theorem add_ghost_score_sequence:
  "score (add_ghost_score s) = score s + 2 ^ ghost_eaten_combo s * 100
   \<and> ghost_eaten_combo (add_ghost_score s) = ghost_eaten_combo s + 1
   \<and> map (\<lambda>k. score ((add_ghost_score ^^ k) ScoreManager_init)) [1, 2, 3, 4]
       = [200, 600, 1400, 3000]
   \<and> ghost_eaten_combo ((add_ghost_score ^^ 4) ScoreManager_init) = 5"
  by (simp add: add_ghost_score_def ScoreManager_init_def numeral_eq_Suc)

theorem add_ghost_score_sequence_witness:
  "score (add_ghost_score \<lparr>score = 70, ghost_eaten_combo = 3\<rparr>) = 870
   \<and> ghost_eaten_combo (add_ghost_score \<lparr>score = 70, ghost_eaten_combo = 3\<rparr>) = 4"
  using add_ghost_score_sequence [of "\<lparr>score = 70, ghost_eaten_combo = 3\<rparr>"] by simp

text \<open>
  C9. From every state, \<open>add_pellet_score\<close> adds exactly 10 to the score and leaves
  \<open>ghost_eaten_combo\<close>, the only other attribute, as it was.
\<close>

theorem add_pellet_score_frame:
  "add_pellet_score s = s\<lparr>score := score s + 10\<rparr>
   \<and> score (add_pellet_score s) = score s + 10
   \<and> ghost_eaten_combo (add_pellet_score s) = ghost_eaten_combo s"
  by (simp add: add_pellet_score_def)

theorem add_pellet_score_frame_witness:
  "score (add_pellet_score \<lparr>score = 670, ghost_eaten_combo = 3\<rparr>) = 680
   \<and> ghost_eaten_combo (add_pellet_score \<lparr>score = 670, ghost_eaten_combo = 3\<rparr>) = 3"
  using add_pellet_score_frame [of "\<lparr>score = 670, ghost_eaten_combo = 3\<rparr>"] by simp

text \<open>
  C8. After any finite sequence of events on a fresh object the score is non-negative and
  the combo is at least 1; every event other than reset leaves the score at least as large
  as it was; and reset brings any such state back to the fresh state (score 0, combo 1).
\<close>

theorem score_manager_invariants:
  "0 \<le> score (run_score_ops es ScoreManager_init)
   \<and> 1 \<le> ghost_eaten_combo (run_score_ops es ScoreManager_init)
   \<and> (e \<noteq> Reset \<longrightarrow>
        score (run_score_ops es ScoreManager_init)
          \<le> score (run_score_ops (es @ [e]) ScoreManager_init))
   \<and> run_score_ops (es @ [Reset]) ScoreManager_init = ScoreManager_init"
proof -
  let ?s = "run_score_ops es ScoreManager_init"
  have inv: "0 \<le> score ?s \<and> 1 \<le> ghost_eaten_combo ?s"
    by (rule run_score_ops_inv) (simp_all add: ScoreManager_init_def)
  have mono: "e \<noteq> Reset \<longrightarrow> score ?s \<le> score (run_score_ops (es @ [e]) ScoreManager_init)"
    by (simp add: run_score_ops_append apply_score_op_mono)
  have "reset ?s = ScoreManager_init"
    by (simp add: reset_def ScoreManager_init_def)
  then have "run_score_ops (es @ [Reset]) ScoreManager_init = ScoreManager_init"
    by (simp add: run_score_ops_append)
  with inv mono show ?thesis by blast
qed

theorem score_manager_invariants_witness:
  "score (run_score_ops [AddPellet, AddPellet, AddPowerPellet, AddGhost] ScoreManager_init) = 270
   \<and> score (run_score_ops [AddPellet, AddPellet, AddPowerPellet, AddGhost, AddGhost]
        ScoreManager_init) = 670
   \<and> (270::int) \<le> 670
   \<and> run_score_ops [AddPellet, AddPellet, AddPowerPellet, AddGhost, Reset] ScoreManager_init
       = ScoreManager_init"
  using score_manager_invariants
    [of "[AddPellet, AddPellet, AddPowerPellet, AddGhost]" AddGhost]
  by (simp add: ScoreManager_init_def reset_def add_pellet_score_def
      add_power_pellet_score_def add_ghost_score_def)

section \<open>Properties of Pathfinder\<close>

subsection \<open>Tiles\<close>

lemma getitem_in_range:
  "0 \<le> i \<Longrightarrow> i < int (length xs) \<Longrightarrow> getitem xs i = Inr (xs ! nat i)"
  by (simp add: getitem_def)

lemma height_init: "height (Pathfinder_init m) = int (length m)"
  by (simp add: Pathfinder_init_def)

lemma maze_init: "maze (Pathfinder_init m) = m"
  by (simp add: Pathfinder_init_def)

lemma is_valid_tile_out_of_bounds:
  "\<not> in_bounds pf x y \<Longrightarrow> is_valid_tile pf x y = Inr False"
  unfolding is_valid_tile_def in_bounds_def by auto

lemma is_valid_tile_in_bounds:
  "in_bounds pf x y \<Longrightarrow> is_valid_tile pf x y =
     (case getitem (maze pf) y of Inl e \<Rightarrow> Inl e | Inr row \<Rightarrow>
        (case getitem row x of Inl e \<Rightarrow> Inl e | Inr cell \<Rightarrow> Inr (cell = 0)))"
  unfolding is_valid_tile_def in_bounds_def by (simp add: not_le)


lemma is_valid_tile_rectangular:
  assumes "rectangular m"
  shows "is_valid_tile (Pathfinder_init m) x y = Inr (valid_tile_spec m x y)"
proof (cases "in_bounds (Pathfinder_init m) x y")
  case False
  then show ?thesis
    by (simp add: is_valid_tile_out_of_bounds valid_tile_spec_def)
next
  case True
  then have y: "0 \<le> y" "y < int (length m)"
    and x: "0 \<le> x" "x < width (Pathfinder_init m)"
    by (simp_all add: in_bounds_def height_init)
  from y have "m ! nat y \<in> set m" by simp
  with assms have len: "int (length (m ! nat y)) = width (Pathfinder_init m)"
    unfolding rectangular_def by blast
  have row: "getitem m y = Inr (m ! nat y)"
    using y by (rule getitem_in_range)
  have cell: "getitem (m ! nat y) x = Inr (m ! nat y ! nat x)"
    using x len by (simp add: getitem_in_range)
  have "is_valid_tile (Pathfinder_init m) x y = Inr (m ! nat y ! nat x = 0)"
    by (simp add: is_valid_tile_in_bounds [OF True] maze_init row cell)
  with True show ?thesis by (simp add: valid_tile_spec_def)
qed

subsection \<open>The exits loop\<close>

lemma exits_loop_skip:
  "d = opposite h \<Longrightarrow> exits_loop pf x y h (d # ds) acc = exits_loop pf x y h ds acc"
  by simp

lemma exits_loop_check:
  "d \<noteq> opposite h \<Longrightarrow>
   is_valid_tile pf (x + fst (direction_value d)) (y + snd (direction_value d)) = Inr ok \<Longrightarrow>
   exits_loop pf x y h (d # ds) acc =
     exits_loop pf x y h ds (if ok then acc @ [d] else acc)"
  by (simp add: split_beta)


lemma exits_loop_filter:
  assumes "\<forall>d \<in> set ds. d \<noteq> opposite h \<longrightarrow>
     is_valid_tile pf (x + fst (direction_value d)) (y + snd (direction_value d)) = Inr (V d)"
  shows "exits_loop pf x y h ds acc = Inr (acc @ filter (\<lambda>d. d \<noteq> opposite h \<and> V d) ds)"
  using assms
proof (induction ds arbitrary: acc)
  case Nil
  show ?case by simp
next
  case (Cons d ds)
  from Cons.prems have rest: "\<forall>d \<in> set ds. d \<noteq> opposite h \<longrightarrow>
     is_valid_tile pf (x + fst (direction_value d)) (y + snd (direction_value d)) = Inr (V d)"
    by simp
  show ?case
  proof (cases "d = opposite h")
    case True
    then show ?thesis
      using Cons.IH [OF rest, of acc] by (simp only: exits_loop_skip) simp
  next
    case False
    with Cons.prems have
      v: "is_valid_tile pf (x + fst (direction_value d)) (y + snd (direction_value d)) = Inr (V d)"
      by simp
    show ?thesis
      using Cons.IH [OF rest, of "if V d then acc @ [d] else acc"] False
      by (simp only: exits_loop_check [OF False v]) simp
  qed
qed


lemma all_directions: "d \<in> set [UP, LEFT, DOWN, RIGHT]"
  by (cases d) simp_all

lemma exits_spec_member:
  "d \<in> set (exits_spec m x y h) \<longleftrightarrow>
     d \<noteq> opposite h
     \<and> valid_tile_spec m (x + fst (direction_value d)) (y + snd (direction_value d))"
  by (simp only: exits_spec_def set_filter mem_Collect_eq all_directions simp_thms)

lemma get_available_exits_rectangular:
  assumes "rectangular m"
  shows "get_available_exits (Pathfinder_init m) x y h = Inr (exits_spec m x y h)"
proof -
  have "exits_loop (Pathfinder_init m) x y h [UP, LEFT, DOWN, RIGHT] [] =
    Inr ([] @ filter (\<lambda>d. d \<noteq> opposite h
       \<and> valid_tile_spec m (x + fst (direction_value d)) (y + snd (direction_value d)))
       [UP, LEFT, DOWN, RIGHT])"
    by (rule exits_loop_filter) (simp only: is_valid_tile_rectangular [OF assms] simp_thms ball_triv)
  then show ?thesis
    by (simp only: get_available_exits_def DIRECTION_PREFERENCE_def exits_spec_def append_Nil)
qed



lemma get_available_exits_no_neighbour:
  assumes "\<forall>d. \<not> in_bounds pf (x + fst (direction_value d)) (y + snd (direction_value d))"
  shows "get_available_exits pf x y h = Inr []"
proof -
  have "exits_loop pf x y h DIRECTION_PREFERENCE [] =
    Inr ([] @ filter (\<lambda>d. d \<noteq> opposite h \<and> False) DIRECTION_PREFERENCE)"
    by (rule exits_loop_filter) (simp add: is_valid_tile_out_of_bounds assms)
  then show ?thesis by (simp add: get_available_exits_def)
qed


subsection \<open>Distances\<close>

lemma preference_rank_simps:
  "preference_rank UP = 0" "preference_rank LEFT = 1"
  "preference_rank DOWN = 2" "preference_rank RIGHT = 3"
  by (simp_all add: preference_rank_def DIRECTION_PREFERENCE_def)

lemma list_index_preference:
  "list_index (map Some DIRECTION_PREFERENCE) (Some d) = Inr (preference_rank d)"
  by (cases d) (simp_all add: preference_rank_def DIRECTION_PREFERENCE_def)

lemma list_index_preference_None:
  "list_index (map Some DIRECTION_PREFERENCE) None = Inl ValueError"
  by (simp add: DIRECTION_PREFERENCE_def)


lemma euclidean_distance_cases:
  "euclidean_distance fd x1 y1 x2 y2 = Inl OverflowError
   \<or> euclidean_distance fd x1 y1 x2 y2 = Inr (fd x1 y1 x2 y2)"
  by (simp add: euclidean_distance_def)

lemma distance_is_finite_eq:
  assumes "distance_is_finite fd lx ly tx ty d"
  shows "euclidean_distance fd (lx + fst (direction_value d)) (ly + snd (direction_value d)) tx ty
         = Inr (test_tile_distance fd lx ly tx ty d)"
  using assms
    euclidean_distance_cases [of fd "lx + fst (direction_value d)" "ly + snd (direction_value d)"
      tx ty]
  by (auto simp add: distance_is_finite_def test_tile_distance_def)

lemma distance_is_finite_less:
  assumes "distance_is_finite fd lx ly tx ty d"
  shows "test_tile_distance fd lx ly tx ty d < Infinity"
proof (cases "test_tile_distance fd lx ly tx ty d")
  case (Finite r)
  then show ?thesis by simp
next
  case Infinity
  with assms distance_is_finite_eq [OF assms] show ?thesis
    by (simp add: distance_is_finite_def)
qed

lemma euclidean_distance_in_range:
  assumes "\<not> int_overflows x1" "\<not> int_overflows y1" "\<not> int_overflows x2" "\<not> int_overflows y2"
  shows "euclidean_distance fd x1 y1 x2 y2 = Inr (fd x1 y1 x2 y2)"
  using assms by (simp add: euclidean_distance_def)

lemma euclidean_distance_overflow:
  "int_overflows x2 \<or> int_overflows y2 \<Longrightarrow> euclidean_distance fd x1 y1 x2 y2 = Inl OverflowError"
  by (auto simp add: euclidean_distance_def)

lemma small_int_in_range: "\<bar>n\<bar> \<le> 1000 \<Longrightarrow> \<not> int_overflows n"
proof -
  have "(1000::int) < DBL_OVERFLOW" by (simp add: DBL_OVERFLOW_def)
  then show "\<bar>n\<bar> \<le> 1000 \<Longrightarrow> \<not> int_overflows n"
    by (simp add: int_overflows_def)
qed

lemma test_tile_in_range:
  assumes "\<bar>lx\<bar> < 1000" "\<bar>ly\<bar> < 1000"
  shows "\<not> int_overflows (lx + fst (direction_value d))"
    and "\<not> int_overflows (ly + snd (direction_value d))"
proof -
  have "\<bar>lx + fst (direction_value d)\<bar> \<le> 1000" "\<bar>ly + snd (direction_value d)\<bar> \<le> 1000"
    using assms by (cases d; simp)+
  then show "\<not> int_overflows (lx + fst (direction_value d))"
    and "\<not> int_overflows (ly + snd (direction_value d))"
    by (simp_all add: small_int_in_range)
qed

lemma euclidean_distance_test_tile:
  assumes "\<bar>lx\<bar> < 1000" "\<bar>ly\<bar> < 1000" "\<bar>tx\<bar> \<le> 1000" "\<bar>ty\<bar> \<le> 1000"
  shows "euclidean_distance fd (lx + fst (direction_value d)) (ly + snd (direction_value d)) tx ty
         = Inr (test_tile_distance fd lx ly tx ty d)"
  using test_tile_in_range [OF assms(1,2), of d] assms(3,4)
  by (simp add: test_tile_distance_def euclidean_distance_in_range small_int_in_range)

lemma distance_is_finite_exact:
  assumes "\<bar>lx\<bar> < 1000" "\<bar>ly\<bar> < 1000" "\<bar>tx\<bar> \<le> 1000" "\<bar>ty\<bar> \<le> 1000"
  shows "distance_is_finite exact_distance lx ly tx ty d"
  by (simp add: distance_is_finite_def euclidean_distance_test_tile [OF assms]
      test_tile_distance_def exact_distance_def)

lemma power_1024_overflows: "int_overflows (2 ^ 1024)"
  by (simp add: int_overflows_def DBL_OVERFLOW_def)

subsection \<open>The selection loop\<close>

lemma choose_loop_Cons:
  "choose_loop fd lx ly tx ty (d # ds) bd bdist =
    (case euclidean_distance fd (lx + fst (direction_value d)) (ly + snd (direction_value d))
            tx ty of
       Inl e \<Rightarrow> Inl e
     | Inr distance \<Rightarrow>
         if distance < bdist then choose_loop fd lx ly tx ty ds (Some d) distance
         else if distance = bdist then
           (case bd of
              None \<Rightarrow> Inl ValueError
            | Some b \<Rightarrow>
                if preference_rank d < preference_rank b
                then choose_loop fd lx ly tx ty ds (Some d) bdist
                else choose_loop fd lx ly tx ty ds bd bdist)
         else choose_loop fd lx ly tx ty ds bd bdist)"
  by (simp add: split_beta list_index_preference list_index_preference_None
      split: sum.splits option.splits)

declare choose_loop.simps(2) [simp del]

lemma choose_loop_first:
  assumes "distance_is_finite fd lx ly tx ty d"
  shows "choose_loop fd lx ly tx ty (d # ds) None Infinity
         = choose_loop fd lx ly tx ty ds (Some d) (test_tile_distance fd lx ly tx ty d)"
  using distance_is_finite_less [OF assms]
  by (simp only: choose_loop_Cons distance_is_finite_eq [OF assms]) simp

lemma choose_loop_next:
  assumes "euclidean_distance fd (lx + fst (direction_value d)) (ly + snd (direction_value d))
             tx ty = Inr (test_tile_distance fd lx ly tx ty d)"
  shows "choose_loop fd lx ly tx ty (d # ds) (Some b) v =
    (if test_tile_distance fd lx ly tx ty d < v
     then choose_loop fd lx ly tx ty ds (Some d) (test_tile_distance fd lx ly tx ty d)
     else if test_tile_distance fd lx ly tx ty d = v \<and> preference_rank d < preference_rank b
     then choose_loop fd lx ly tx ty ds (Some d) v
     else choose_loop fd lx ly tx ty ds (Some b) v)"
  by (simp only: choose_loop_Cons assms) simp

text \<open>
  The loop invariant: with a best direction \<open>b\<close> and its distance in hand, the loop ends
  with a direction of least computed distance among \<open>b\<close> and the remaining exits, and of
  least preference rank among those at that distance.
\<close>

lemma choose_loop_best:
  assumes "\<forall>e \<in> set ds. distance_is_finite fd lx ly tx ty e"
  shows "\<exists>r. choose_loop fd lx ly tx ty ds (Some b) (test_tile_distance fd lx ly tx ty b)
               = Inr (Some r)
           \<and> r \<in> insert b (set ds)
           \<and> (\<forall>e \<in> insert b (set ds).
                 test_tile_distance fd lx ly tx ty r \<le> test_tile_distance fd lx ly tx ty e
                 \<and> (test_tile_distance fd lx ly tx ty e = test_tile_distance fd lx ly tx ty r
                      \<longrightarrow> preference_rank r \<le> preference_rank e))"
  using assms
proof (induction ds arbitrary: b)
  case Nil
  show ?case by simp
next
  case (Cons d ds)
  let ?f = "test_tile_distance fd lx ly tx ty"
  from Cons.prems have fin: "distance_is_finite fd lx ly tx ty d"
    and rest: "\<forall>e \<in> set ds. distance_is_finite fd lx ly tx ty e"
    by simp_all
  note step = choose_loop_next [OF distance_is_finite_eq [OF fin], of ds b "?f b"]
  consider (less) "?f d < ?f b"
    | (tie) "?f d = ?f b" "preference_rank d < preference_rank b"
    | (keep) "\<not> ?f d < ?f b" "\<not> (?f d = ?f b \<and> preference_rank d < preference_rank b)"
    by blast
  then show ?case
  proof cases
    case less
    from Cons.IH [OF rest, of d] obtain r where
      r: "choose_loop fd lx ly tx ty ds (Some d) (?f d) = Inr (Some r)"
        "r \<in> insert d (set ds)"
        "\<forall>e \<in> insert d (set ds). ?f r \<le> ?f e \<and> (?f e = ?f r \<longrightarrow> preference_rank r \<le> preference_rank e)"
      by blast
    from r(3) have "?f r \<le> ?f d" by simp
    with less have "?f r < ?f b" by simp
    with r less step show ?thesis by auto
  next
    case tie
    from Cons.IH [OF rest, of d] obtain r where
      r: "choose_loop fd lx ly tx ty ds (Some d) (?f d) = Inr (Some r)"
        "r \<in> insert d (set ds)"
        "\<forall>e \<in> insert d (set ds). ?f r \<le> ?f e \<and> (?f e = ?f r \<longrightarrow> preference_rank r \<le> preference_rank e)"
      by blast
    from r(3) have rd: "?f r \<le> ?f d" "?f d = ?f r \<longrightarrow> preference_rank r \<le> preference_rank d"
      by simp_all
    with tie have "?f r \<le> ?f b" "?f b = ?f r \<longrightarrow> preference_rank r \<le> preference_rank b"
      by auto
    with r tie step show ?thesis by auto
  next
    case keep
    from Cons.IH [OF rest, of b] obtain r where
      r: "choose_loop fd lx ly tx ty ds (Some b) (?f b) = Inr (Some r)"
        "r \<in> insert b (set ds)"
        "\<forall>e \<in> insert b (set ds). ?f r \<le> ?f e \<and> (?f e = ?f r \<longrightarrow> preference_rank r \<le> preference_rank e)"
      by blast
    from r(3) have rb: "?f r \<le> ?f b" "?f b = ?f r \<longrightarrow> preference_rank r \<le> preference_rank b"
      by simp_all
    with keep have "?f r \<le> ?f d" "?f d = ?f r \<longrightarrow> preference_rank r \<le> preference_rank d"
      by auto
    with r keep step show ?thesis by auto
  qed
qed

lemma choose_loop_optimal:
  assumes "ds \<noteq> []" and "\<forall>e \<in> set ds. distance_is_finite fd lx ly tx ty e"
  shows "\<exists>r. choose_loop fd lx ly tx ty ds None Infinity = Inr (Some r)
           \<and> r \<in> set ds
           \<and> (\<forall>e \<in> set ds.
                 test_tile_distance fd lx ly tx ty r \<le> test_tile_distance fd lx ly tx ty e
                 \<and> (test_tile_distance fd lx ly tx ty e = test_tile_distance fd lx ly tx ty r
                      \<longrightarrow> preference_rank r \<le> preference_rank e))"
proof -
  from assms(1) obtain d rest where ds: "ds = d # rest" by (cases ds) auto
  with assms(2) have fin: "distance_is_finite fd lx ly tx ty d"
    and rest: "\<forall>e \<in> set rest. distance_is_finite fd lx ly tx ty e"
    by simp_all
  from choose_loop_best [OF rest, of d] show ?thesis
    by (simp only: ds choose_loop_first [OF fin] list.set)
qed


lemma choose_loop_not_IndexError:
  "choose_loop fd lx ly tx ty ds bd bdist \<noteq> Inl IndexError"
proof (induction ds arbitrary: bd bdist)
  case Nil
  show ?case by simp
next
  case (Cons d ds)
  let ?dist = "euclidean_distance fd (lx + fst (direction_value d)) (ly + snd (direction_value d))
      tx ty"
  show ?case
  proof (cases ?dist)
    case (Inl e)
    with euclidean_distance_cases
      [of fd "lx + fst (direction_value d)" "ly + snd (direction_value d)" tx ty]
    have "e = OverflowError" by auto
    with Inl show ?thesis by (simp only: choose_loop_Cons) simp
  next
    case (Inr distance)
    show ?thesis
      by (simp only: choose_loop_Cons Inr) (simp add: Cons.IH split: option.splits)
  qed
qed

subsection \<open>The three branches of \<open>choose_direction\<close>\<close>


lemma choose_direction_exits:
  "get_available_exits pf (gx + fst (direction_value h)) (gy + snd (direction_value h)) h = Inr es
   \<Longrightarrow> choose_direction fd pf gx gy h tx ty =
     (if length es = 1 then Inr (Some (hd es))
      else if es = [] then Inr (Some (opposite h))
      else choose_loop fd (gx + fst (direction_value h)) (gy + snd (direction_value h)) tx ty es
             None Infinity)"
  by (cases es) (simp_all add: choose_direction_def split_beta getitem_def)

lemma choose_direction_many:
  assumes "get_available_exits pf (gx + fst (direction_value h)) (gy + snd (direction_value h)) h
             = Inr es"
    and "2 \<le> length es"
  shows "choose_direction fd pf gx gy h tx ty =
     choose_loop fd (gx + fst (direction_value h)) (gy + snd (direction_value h)) tx ty es
       None Infinity"
proof -
  from assms(2) have "length es \<noteq> 1" "es \<noteq> []" by auto
  then show ?thesis by (simp add: choose_direction_exits [OF assms(1)])
qed

lemma choose_direction_overflow:
  assumes "get_available_exits pf (gx + fst (direction_value h)) (gy + snd (direction_value h)) h
             = Inr es"
    and "2 \<le> length es" and "int_overflows tx \<or> int_overflows ty"
  shows "choose_direction fd pf gx gy h tx ty = Inl OverflowError"
proof -
  from assms(2) obtain d rest where "es = d # rest" by (cases es) auto
  then show ?thesis
    by (simp add: choose_direction_many [OF assms(1,2)] choose_loop_Cons
        euclidean_distance_overflow [OF assms(3)])
qed


subsection \<open>The test maze\<close>

lemma simple_maze_init:
  "Pathfinder_init simple_maze = \<lparr>maze = simple_maze, height = 5, width = 5\<rparr>"
  by (simp add: Pathfinder_init_def simple_maze_def)

lemma rectangular_simple_maze: "rectangular simple_maze"
  by (simp add: rectangular_def simple_maze_init) (simp add: simple_maze_def)

lemmas simple_maze_eval =
  get_available_exits_def DIRECTION_PREFERENCE_def Pathfinder_init_def is_valid_tile_def
  getitem_def simple_maze_def

section \<open>The claims about Pathfinder\<close>

text \<open>
  C1, as amended. Whenever the exits computed at the lookahead tile are at least two and
  \<open>math.dist\<close> returns a finite float for the test tile of each exit,
  \<open>choose_direction\<close> returns an exit of that list whose test tile has the least computed
  distance to the target, and among the exits with that same computed distance the one
  earliest in UP, LEFT, DOWN, RIGHT. The distances compared are the floats computed, so
  exact distances that round to the same float count as equal.
\<close>

theorem choose_direction_min_distance:
  assumes "get_available_exits (Pathfinder_init m)
             (gx + fst (direction_value h)) (gy + snd (direction_value h)) h = Inr es"
    and "2 \<le> length es"
    and "\<forall>e \<in> set es. distance_is_finite fd
             (gx + fst (direction_value h)) (gy + snd (direction_value h)) tx ty e"
  shows "\<exists>d. choose_direction fd (Pathfinder_init m) gx gy h tx ty = Inr (Some d)
     \<and> d \<in> set es
     \<and> (\<forall>e \<in> set es.
          test_tile_distance fd (gx + fst (direction_value h)) (gy + snd (direction_value h))
              tx ty d
            \<le> test_tile_distance fd (gx + fst (direction_value h))
                 (gy + snd (direction_value h)) tx ty e
          \<and> (test_tile_distance fd (gx + fst (direction_value h))
                 (gy + snd (direction_value h)) tx ty e
               = test_tile_distance fd (gx + fst (direction_value h))
                   (gy + snd (direction_value h)) tx ty d
              \<longrightarrow> preference_rank d \<le> preference_rank e))"
proof -
  from assms(2) have "es \<noteq> []" by auto
  from choose_loop_optimal [OF this assms(3)] show ?thesis
    by (simp only: choose_direction_many [OF assms(1,2)])
qed

theorem choose_direction_min_distance_witness:
  "get_available_exits (Pathfinder_init simple_maze) 2 2 UP = Inr [UP, LEFT, RIGHT]
   \<and> test_tile_distance exact_distance 2 2 2 2 UP = Finite 1
   \<and> test_tile_distance exact_distance 2 2 2 2 LEFT = Finite 1
   \<and> test_tile_distance exact_distance 2 2 2 2 RIGHT = Finite 1
   \<and> choose_direction exact_distance (Pathfinder_init simple_maze) 2 3 UP 2 2 = Inr (Some UP)"
proof -
  have exits: "get_available_exits (Pathfinder_init simple_maze)
      (2 + fst (direction_value UP)) (3 + snd (direction_value UP)) UP = Inr [UP, LEFT, RIGHT]"
    by (simp add: simple_maze_eval)
  have len: "2 \<le> length [UP, LEFT, RIGHT]" by simp
  have fin: "\<forall>e \<in> set [UP, LEFT, RIGHT]. distance_is_finite exact_distance
      (2 + fst (direction_value UP)) (3 + snd (direction_value UP)) 2 2 e"
    by (simp add: distance_is_finite_exact)
  have dist: "test_tile_distance exact_distance 2 2 2 2 UP = Finite 1"
    "test_tile_distance exact_distance 2 2 2 2 LEFT = Finite 1"
    "test_tile_distance exact_distance 2 2 2 2 RIGHT = Finite 1"
    by (simp_all add: test_tile_distance_def exact_distance_def)
  from choose_direction_min_distance [OF exits len fin]
  obtain d where d:
    "choose_direction exact_distance (Pathfinder_init simple_maze) 2 3 UP 2 2 = Inr (Some d)"
    "d \<in> set [UP, LEFT, RIGHT]"
    "test_tile_distance exact_distance 2 2 2 2 UP = test_tile_distance exact_distance 2 2 2 2 d
       \<longrightarrow> preference_rank d \<le> preference_rank UP"
    by auto
  from d(2,3) dist have "d = UP"
    by (auto simp add: preference_rank_simps)
  with d(1) exits dist show ?thesis by simp
qed

theorem choose_direction_min_distance_counterexample:
  "get_available_exits (Pathfinder_init simple_maze) 2 1 UP = Inr [LEFT, RIGHT]
   \<and> (\<forall>fd. choose_direction fd (Pathfinder_init simple_maze) 2 2 UP (2 ^ 1024) 0
          = Inl OverflowError)"
proof -
  have exits: "get_available_exits (Pathfinder_init simple_maze)
      (2 + fst (direction_value UP)) (2 + snd (direction_value UP)) UP = Inr [LEFT, RIGHT]"
    by (simp add: simple_maze_eval)
  have len: "2 \<le> length [LEFT, RIGHT]" by simp
  have ov: "int_overflows (2 ^ 1024) \<or> int_overflows 0"
    using power_1024_overflows by simp
  have "choose_direction fd (Pathfinder_init simple_maze) 2 2 UP (2 ^ 1024) 0
      = Inl OverflowError" for fd
    by (rule choose_direction_overflow [OF exits len ov])
  with exits show ?thesis by simp
qed




text \<open>
  C3. On a rectangular maze, \<open>get_available_exits\<close> returns the list obtained by scanning
  UP, LEFT, DOWN, RIGHT and keeping the directions that are not the opposite of the heading
  and whose adjacent tile is within the grid bounds and walkable. The result never contains
  the opposite of the heading, is a subsequence of the preference order, and leaves out
  every direction whose adjacent tile is outside the grid.
\<close>

theorem get_available_exits_spec:
  assumes "rectangular m"
  shows "get_available_exits (Pathfinder_init m) x y h = Inr (exits_spec m x y h)
     \<and> opposite h \<notin> set (exits_spec m x y h)
     \<and> subseq (exits_spec m x y h) DIRECTION_PREFERENCE
     \<and> (\<forall>d. \<not> in_bounds (Pathfinder_init m)
                  (x + fst (direction_value d)) (y + snd (direction_value d))
             \<longrightarrow> d \<notin> set (exits_spec m x y h))"
proof -
  have "subseq (exits_spec m x y h) DIRECTION_PREFERENCE"
    unfolding exits_spec_def DIRECTION_PREFERENCE_def by (rule subseq_filter_left)
  moreover have "opposite h \<notin> set (exits_spec m x y h)"
    by (simp add: exits_spec_member)
  moreover have "\<forall>d. \<not> in_bounds (Pathfinder_init m)
                  (x + fst (direction_value d)) (y + snd (direction_value d))
             \<longrightarrow> d \<notin> set (exits_spec m x y h)"
    by (simp add: exits_spec_member valid_tile_spec_def)
  ultimately show ?thesis
    using get_available_exits_rectangular [OF assms, of x y h] by blast
qed

theorem get_available_exits_spec_witness:
  "rectangular simple_maze
   \<and> exits_spec simple_maze 1 3 UP = [UP, RIGHT]
   \<and> get_available_exits (Pathfinder_init simple_maze) 1 3 UP = Inr [UP, RIGHT]
   \<and> get_available_exits (Pathfinder_init simple_maze) 4 0 LEFT = Inr []"
proof -
  have a: "exits_spec simple_maze 1 3 UP = [UP, RIGHT]"
    by (simp add: exits_spec_def valid_tile_spec_def in_bounds_def Pathfinder_init_def
        simple_maze_def)
  have b: "exits_spec simple_maze 4 0 LEFT = []"
    by (simp add: exits_spec_def valid_tile_spec_def in_bounds_def Pathfinder_init_def
        simple_maze_def)
  from get_available_exits_spec [OF rectangular_simple_maze, of 1 3 UP]
    get_available_exits_spec [OF rectangular_simple_maze, of 4 0 LEFT]
    a b rectangular_simple_maze
  show ?thesis by simp
qed

text \<open>
  C4, as amended. If the exits computed at the lookahead tile are empty, \<open>choose_direction\<close>
  returns the opposite of the heading. Ghost coordinates far from the grid cause no error:
  whenever no neighbour of the lookahead tile lies within the grid bounds, no cell is read,
  the exits are empty and the result is the reversal, on every maze.
\<close>

theorem choose_direction_dead_end:
  "(get_available_exits (Pathfinder_init m)
        (gx + fst (direction_value h)) (gy + snd (direction_value h)) h = Inr []
      \<longrightarrow> choose_direction fd (Pathfinder_init m) gx gy h tx ty = Inr (Some (opposite h)))
   \<and> ((\<forall>d. \<not> in_bounds (Pathfinder_init m)
               (gx + fst (direction_value h) + fst (direction_value d))
               (gy + snd (direction_value h) + snd (direction_value d)))
      \<longrightarrow> get_available_exits (Pathfinder_init m)
            (gx + fst (direction_value h)) (gy + snd (direction_value h)) h = Inr []
          \<and> choose_direction fd (Pathfinder_init m) gx gy h tx ty = Inr (Some (opposite h)))"
proof -
  have dead: "choose_direction fd (Pathfinder_init m) gx gy h tx ty = Inr (Some (opposite h))"
    if "get_available_exits (Pathfinder_init m)
        (gx + fst (direction_value h)) (gy + snd (direction_value h)) h = Inr []"
    by (simp add: choose_direction_exits [OF that])
  have far: "get_available_exits (Pathfinder_init m)
        (gx + fst (direction_value h)) (gy + snd (direction_value h)) h = Inr []"
    if "\<forall>d. \<not> in_bounds (Pathfinder_init m)
               (gx + fst (direction_value h) + fst (direction_value d))
               (gy + snd (direction_value h) + snd (direction_value d))"
    using that by (rule get_available_exits_no_neighbour)
  from dead far show ?thesis by blast
qed

theorem choose_direction_dead_end_witness:
  "get_available_exits (Pathfinder_init simple_maze) 1 0 UP = Inr []
   \<and> choose_direction exact_distance (Pathfinder_init simple_maze) 1 1 UP 1 3
       = Inr (Some DOWN)
   \<and> get_available_exits (Pathfinder_init simple_maze) 8 (-3) RIGHT = Inr []
   \<and> choose_direction exact_distance (Pathfinder_init simple_maze) 7 (-3) RIGHT 1 3
       = Inr (Some LEFT)"
proof -
  have e1: "get_available_exits (Pathfinder_init simple_maze)
      (1 + fst (direction_value UP)) (1 + snd (direction_value UP)) UP = Inr []"
    by (simp add: simple_maze_eval)
  have far: "\<forall>d. \<not> in_bounds (Pathfinder_init simple_maze)
               (7 + fst (direction_value RIGHT) + fst (direction_value d))
               (-3 + snd (direction_value RIGHT) + snd (direction_value d))"
  proof
    fix d show "\<not> in_bounds (Pathfinder_init simple_maze)
               (7 + fst (direction_value RIGHT) + fst (direction_value d))
               (-3 + snd (direction_value RIGHT) + snd (direction_value d))"
      by (cases d) (simp_all add: in_bounds_def simple_maze_init)
  qed
  from choose_direction_dead_end [of simple_maze 1 UP 1 exact_distance 1 3]
    choose_direction_dead_end [of simple_maze 7 RIGHT "-3" exact_distance 1 3] e1 far
  show ?thesis by simp
qed

theorem choose_direction_dead_end_counterexample:
  "\<not> in_bounds (Pathfinder_init simple_maze) (-1) 1
   \<and> get_available_exits (Pathfinder_init simple_maze) 0 1 RIGHT = Inr [RIGHT]
   \<and> (\<forall>fd. choose_direction fd (Pathfinder_init simple_maze) (-1) 1 RIGHT 3 3
          = Inr (Some RIGHT))
   \<and> opposite RIGHT = LEFT"
proof -
  have e: "get_available_exits (Pathfinder_init simple_maze)
      (-1 + fst (direction_value RIGHT)) (1 + snd (direction_value RIGHT)) RIGHT = Inr [RIGHT]"
    by (simp add: simple_maze_eval)
  have "choose_direction fd (Pathfinder_init simple_maze) (-1) 1 RIGHT 3 3 = Inr (Some RIGHT)"
    for fd
    by (simp add: choose_direction_exits [OF e])
  with e show ?thesis by (simp add: in_bounds_def)
qed

text \<open>
  C5. If the exits computed at the lookahead tile are exactly one direction,
  \<open>choose_direction\<close> returns that direction.
\<close>

theorem choose_direction_single_exit:
  assumes "get_available_exits (Pathfinder_init m)
             (gx + fst (direction_value h)) (gy + snd (direction_value h)) h = Inr [d]"
  shows "choose_direction fd (Pathfinder_init m) gx gy h tx ty = Inr (Some d)"
  by (simp add: choose_direction_exits [OF assms])

theorem choose_direction_single_exit_witness:
  "get_available_exits (Pathfinder_init simple_maze) 2 1 RIGHT = Inr [RIGHT]
   \<and> choose_direction exact_distance (Pathfinder_init simple_maze) 1 1 RIGHT 3 3
       = Inr (Some RIGHT)"
proof -
  have e: "get_available_exits (Pathfinder_init simple_maze)
      (1 + fst (direction_value RIGHT)) (1 + snd (direction_value RIGHT)) RIGHT = Inr [RIGHT]"
    by (simp add: simple_maze_eval)
  from choose_direction_single_exit [OF e, of exact_distance 3 3] e show ?thesis by simp
qed

text \<open>
  C6, as amended. On a rectangular maze, for all integer inputs: \<open>is_valid_tile\<close> and
  \<open>get_available_exits\<close> return a value, \<open>get_next_position\<close> is the translation by the
  direction's displacement, and \<open>choose_direction\<close> never reads the grid out of bounds
  (it does not raise IndexError). \<open>choose_direction\<close> returns a direction, never None,
  whenever \<open>math.dist\<close> returns a finite float for the test tile of each exit. Where the
  lookahead tile has two or more exits and a target coordinate is of magnitude
  \<open>2^1024 - 2^970\<close> or more, it raises OverflowError.
\<close>

theorem navigator_total:
  assumes "rectangular m"
  shows "(\<exists>b. is_valid_tile (Pathfinder_init m) x y = Inr b)
     \<and> (\<exists>es. get_available_exits (Pathfinder_init m) x y h = Inr es)
     \<and> get_next_position x y h = (x + fst (direction_value h), y + snd (direction_value h))
     \<and> choose_direction fd (Pathfinder_init m) gx gy h tx ty \<noteq> Inl IndexError
     \<and> ((\<forall>e \<in> set (exits_spec m (gx + fst (direction_value h))
                          (gy + snd (direction_value h)) h).
            distance_is_finite fd (gx + fst (direction_value h))
              (gy + snd (direction_value h)) tx ty e)
         \<longrightarrow> (\<exists>d. choose_direction fd (Pathfinder_init m) gx gy h tx ty = Inr (Some d)))
     \<and> (2 \<le> length (exits_spec m (gx + fst (direction_value h))
                       (gy + snd (direction_value h)) h)
          \<and> (int_overflows tx \<or> int_overflows ty)
         \<longrightarrow> choose_direction fd (Pathfinder_init m) gx gy h tx ty = Inl OverflowError)"
proof -
  let ?lx = "gx + fst (direction_value h)" and ?ly = "gy + snd (direction_value h)"
  let ?es = "exits_spec m ?lx ?ly h"
  note exits = get_available_exits_rectangular [OF assms, of ?lx ?ly h]
  note choice = choose_direction_exits [OF exits, of fd tx ty]
  have tile: "\<exists>b. is_valid_tile (Pathfinder_init m) x y = Inr b"
    by (simp add: is_valid_tile_rectangular [OF assms])
  have ex: "\<exists>es. get_available_exits (Pathfinder_init m) x y h = Inr es"
    by (simp add: get_available_exits_rectangular [OF assms])
  have pos: "get_next_position x y h
      = (x + fst (direction_value h), y + snd (direction_value h))"
    by (simp add: get_next_position_def split_beta)
  have safe: "choose_direction fd (Pathfinder_init m) gx gy h tx ty \<noteq> Inl IndexError"
    by (simp add: choice choose_loop_not_IndexError)
  have total: "\<exists>d. choose_direction fd (Pathfinder_init m) gx gy h tx ty = Inr (Some d)"
    if fin: "\<forall>e \<in> set ?es. distance_is_finite fd ?lx ?ly tx ty e"
  proof (cases "length ?es = 1 \<or> ?es = []")
    case True
    then show ?thesis by (auto simp add: choice)
  next
    case False
    then have "?es \<noteq> []" by simp
    from choose_loop_optimal [OF this fin] False show ?thesis
      by (auto simp add: choice)
  qed
  have over: "choose_direction fd (Pathfinder_init m) gx gy h tx ty = Inl OverflowError"
    if "2 \<le> length ?es" and "int_overflows tx \<or> int_overflows ty"
    using exits that by (rule choose_direction_overflow)
  from tile ex pos safe total over show ?thesis by blast
qed

theorem navigator_total_witness:
  "rectangular simple_maze
   \<and> (\<exists>b. is_valid_tile (Pathfinder_init simple_maze) 10 (-10) = Inr b)
   \<and> (\<exists>es. get_available_exits (Pathfinder_init simple_maze) 10 (-10) UP = Inr es)
   \<and> get_next_position 10 (-10) UP = (10, -11)
   \<and> (\<exists>d. choose_direction exact_distance (Pathfinder_init simple_maze) 2 3 UP 2 2
            = Inr (Some d))"
proof -
  have fin: "\<forall>e \<in> set (exits_spec simple_maze (2 + fst (direction_value UP))
                          (3 + snd (direction_value UP)) UP).
            distance_is_finite exact_distance (2 + fst (direction_value UP))
              (3 + snd (direction_value UP)) 2 2 e"
    by (simp add: distance_is_finite_exact)
  from navigator_total [OF rectangular_simple_maze,
      where x = 10 and y = "-10" and h = UP and gx = 2 and gy = 3 and tx = 2 and ty = 2
        and fd = exact_distance]
    fin rectangular_simple_maze
  show ?thesis by simp
qed

theorem navigator_total_counterexample:
  "rectangular simple_maze
   \<and> get_available_exits (Pathfinder_init simple_maze) 2 3 DOWN = Inr [LEFT, RIGHT]
   \<and> (\<forall>fd. choose_direction fd (Pathfinder_init simple_maze) 2 2 DOWN (2 ^ 1024) (2 ^ 1024)
          = Inl OverflowError)"
proof -
  have exits: "get_available_exits (Pathfinder_init simple_maze)
      (2 + fst (direction_value DOWN)) (2 + snd (direction_value DOWN)) DOWN
      = Inr [LEFT, RIGHT]"
    by (simp add: simple_maze_eval)
  have len: "2 \<le> length [LEFT, RIGHT]" by simp
  have ov: "int_overflows (2 ^ 1024) \<or> int_overflows (2 ^ 1024)"
    using power_1024_overflows by simp
  have "choose_direction fd (Pathfinder_init simple_maze) 2 2 DOWN (2 ^ 1024) (2 ^ 1024)
      = Inl OverflowError" for fd
    by (rule choose_direction_overflow [OF exits len ov])
  with exits rectangular_simple_maze show ?thesis by simp
qed



end
